theory Spec2Isabelle
  imports Complex_Main
begin

section \<open>The distribution of central stock over branches\<close>

text \<open>
  The allocation of \<^verbatim>\<open>distribute_products.py\<close> is two SQL statements run against
  PostgreSQL: \<^verbatim>\<open>distribution_sql\<close> fills the table \<^verbatim>\<open>shipments\<close>, and
  \<^verbatim>\<open>adjustment_sql\<close> prunes it and hands the pruned units out again.
  Each table and each common table expression is modelled as a list of records, read as a
  bag; each clause of the statements is a list function:
  \<^item> a \<^verbatim>\<open>JOIN\<close> is a list comprehension over both sides with the join condition;
  \<^item> \<^verbatim>\<open>GROUP BY\<close> is \<open>group_by\<close>: one group per distinct key;
  \<^item> \<^verbatim>\<open>ROW_NUMBER() OVER (PARTITION BY ... ORDER BY ... DESC)\<close> is
    \<open>row_number_over\<close>: every partition is sorted and numbered from 1. The sort is
    stable, so rows of equal priority are numbered in the order of the input list. SQL
    leaves that order open; the order of the rows of a table is any order here too.
  \<^item> \<^verbatim>\<open>NUMERIC\<close> columns are rationals, \<^verbatim>\<open>INT\<close> and \<^verbatim>\<open>BIGINT\<close> columns are
    integers, identifiers (\<^verbatim>\<open>UUID\<close>) are natural numbers used as opaque tokens;
  \<^item> a cast of a \<^verbatim>\<open>NUMERIC\<close> to an integer type rounds to the nearest integer, halves
    away from zero, as PostgreSQL does; that is the explicit \<^verbatim>\<open>::BIGINT\<close> and the
    assignment of a \<^verbatim>\<open>NUMERIC\<close> expression to the \<^verbatim>\<open>INT\<close> column
    \<^verbatim>\<open>shipment_qty\<close> by \<^verbatim>\<open>INSERT\<close>;
  \<^item> \<^verbatim>\<open>NULL\<close> is \<open>None\<close>; it arises from \<^verbatim>\<open>NULLIF\<close> only, every column being
    \<^verbatim>\<open>NOT NULL\<close>;
  \<^item> a division by a zero that is not \<^verbatim>\<open>NULL\<close> aborts the statement: \<open>Inl Division_by_zero\<close>.

  Two things PostgreSQL does are outside the model. A division of \<^verbatim>\<open>NUMERIC\<close> values is
  exact here, where PostgreSQL rounds the quotient to a scale of at least 16 significant
  digits. Integers are unbounded here, where PostgreSQL aborts the statement when a value
  leaves the range of \<^verbatim>\<open>INT\<close> or \<^verbatim>\<open>BIGINT\<close>: the model describes the runs in which
  no value does.
\<close>

subsection \<open>SQL expressions\<close>

type_synonym uuid = nat

datatype sql_error = Division_by_zero

definition sql_greatest :: "rat \<Rightarrow> rat \<Rightarrow> rat" where
  "sql_greatest a b = max a b"

definition sql_least :: "rat \<Rightarrow> rat \<Rightarrow> rat" where
  "sql_least a b = min a b"

definition sql_nullif :: "rat \<Rightarrow> rat \<Rightarrow> rat option" where
  "sql_nullif a b = (if a = b then None else Some a)"

definition sql_coalesce :: "int option \<Rightarrow> int \<Rightarrow> int" where
  "sql_coalesce a b = (case a of None \<Rightarrow> b | Some v \<Rightarrow> v)"

definition sql_div :: "rat \<Rightarrow> rat option \<Rightarrow> sql_error + rat option" where
  "sql_div a b =
     (case b of
        None \<Rightarrow> Inr None
      | Some d \<Rightarrow> if d = 0 then Inl Division_by_zero else Inr (Some (a / d)))"

definition sql_floor :: "rat option \<Rightarrow> int option" where
  "sql_floor q = map_option (\<lambda>v. \<lfloor>v\<rfloor>) q"

definition numeric_to_int :: "rat \<Rightarrow> int" where
  "numeric_to_int x = (if 0 \<le> x then \<lfloor>x + 1 / 2\<rfloor> else \<lceil>x - 1 / 2\<rceil>)"

definition group_by :: "('a \<Rightarrow> 'k) \<Rightarrow> 'a list \<Rightarrow> ('k \<times> 'a list) list" where
  "group_by key rows =
     map (\<lambda>k. (k, filter (\<lambda>r. key r = k) rows)) (remdups (map key rows))"

definition row_number_over :: "('a \<Rightarrow> 'k) \<Rightarrow> ('a \<Rightarrow> int) \<Rightarrow> 'a list \<Rightarrow> ('a \<times> nat) list" where
  "row_number_over part desc rows =
     concat (map (\<lambda>(k, g). zip (sort_key (\<lambda>r. - desc r) g) [1 ..< Suc (length g)])
                 (group_by part rows))"

fun collect :: "('e + 'a) list \<Rightarrow> 'e + 'a list" where
  "collect [] = Inr []"
| "collect (x # xs) =
     (case x of
        Inl e \<Rightarrow> Inl e
      | Inr v \<Rightarrow> (case collect xs of Inl e \<Rightarrow> Inl e | Inr vs \<Rightarrow> Inr (v # vs)))"

subsection \<open>The tables\<close>

record branch_products_row =
  bp_product_id :: uuid
  bp_branch_id :: uuid
  bp_stock :: rat
  bp_reserve :: rat
  bp_transit :: rat

record rc_products_row =
  rcp_product_id :: uuid
  rcp_branch_id :: uuid
  rcp_stock :: rat
  rcp_reserve :: rat
  rcp_transit :: rat

record stores_row =
  st_branch_id :: uuid
  st_priority :: int
  st_min_shipment :: int

record needs_row =
  nd_branch_id :: uuid
  nd_product_id :: uuid
  nd_need :: int

record shipments_row =
  sh_branch_id :: uuid
  sh_product_id :: uuid
  sh_shipment_qty :: int

record database =
  branch_products :: "branch_products_row list"
  rc_products :: "rc_products_row list"
  stores :: "stores_row list"
  needs :: "needs_row list"

subsection \<open>The statement \<^verbatim>\<open>distribution_sql\<close>\<close>

record available_row =
  av_product_id :: uuid
  av_branch_id :: uuid
  av_deficit :: rat
  av_priority :: int

record rc_row =
  rc_product_id :: uuid
  rc_total_stock :: int

record sum_weights_row =
  sw_product_id :: uuid
  sw_total_weight :: rat

record first_alloc_row =
  fa_product_id :: uuid
  fa_branch_id :: uuid
  fa_deficit :: rat
  fa_priority :: int
  fa_total_stock :: int
  fa_total_weight :: rat

record first_pass_row =
  fp_product_id :: uuid
  fp_branch_id :: uuid
  fp_deficit :: rat
  fp_priority :: int
  fp_shipped :: rat

record remaining_row =
  rem_product_id :: uuid
  rem_remaining :: rat

record pass1_row =
  p1_product_id :: uuid
  p1_branch_id :: uuid
  p1_deficit :: rat
  p1_priority :: int
  p1_shipped :: rat
  p1_remaining :: rat

record second_pass_row =
  sp_branch_id :: uuid
  sp_product_id :: uuid
  sp_shipment_qty :: rat

definition deficit :: "needs_row \<Rightarrow> branch_products_row \<Rightarrow> rat" where
  "deficit n bp =
     sql_greatest 0 (of_int (nd_need n) - (bp_stock bp + bp_transit bp - bp_reserve bp))"

definition available :: "database \<Rightarrow> available_row list" where
  "available db =
     [\<lparr>av_product_id = bp_product_id bp, av_branch_id = bp_branch_id bp,
       av_deficit = deficit n bp, av_priority = st_priority s\<rparr>.
        bp \<leftarrow> branch_products db,
        n \<leftarrow> needs db,
        bp_branch_id bp = nd_branch_id n \<and> bp_product_id bp = nd_product_id n,
        s \<leftarrow> stores db,
        bp_branch_id bp = st_branch_id s]"

definition rc :: "database \<Rightarrow> rc_row list" where
  "rc db =
     map (\<lambda>(p, g). \<lparr>rc_product_id = p,
                     rc_total_stock = numeric_to_int (sum_list (map rcp_stock g))\<rparr>)
         (group_by rcp_product_id (rc_products db))"

definition sum_weights :: "available_row list \<Rightarrow> sum_weights_row list" where
  "sum_weights av =
     map (\<lambda>(p, g). \<lparr>sw_product_id = p,
                     sw_total_weight =
                       sum_list (map (\<lambda>a. av_deficit a * of_int (av_priority a)) g)\<rparr>)
         (group_by av_product_id av)"

definition first_alloc ::
  "available_row list \<Rightarrow> rc_row list \<Rightarrow> sum_weights_row list \<Rightarrow> first_alloc_row list" where
  "first_alloc av rcs sws =
     [\<lparr>fa_product_id = av_product_id a, fa_branch_id = av_branch_id a,
       fa_deficit = av_deficit a, fa_priority = av_priority a,
       fa_total_stock = rc_total_stock r, fa_total_weight = sw_total_weight sw\<rparr>.
        a \<leftarrow> av,
        r \<leftarrow> rcs,
        rc_product_id r = av_product_id a,
        sw \<leftarrow> sws,
        sw_product_id sw = av_product_id a]"

definition shipped :: "first_alloc_row \<Rightarrow> sql_error + rat" where
  "shipped r =
     (case sql_div (of_int (fa_total_stock r) * (fa_deficit r * of_int (fa_priority r)))
                   (sql_nullif (fa_total_weight r) 0) of
        Inl e \<Rightarrow> Inl e
      | Inr q \<Rightarrow> Inr (sql_least (of_int (sql_coalesce (sql_floor q) 0)) (fa_deficit r)))"

definition first_pass_of :: "first_alloc_row \<Rightarrow> sql_error + first_pass_row" where
  "first_pass_of r =
     (case shipped r of
        Inl e \<Rightarrow> Inl e
      | Inr v \<Rightarrow> Inr \<lparr>fp_product_id = fa_product_id r, fp_branch_id = fa_branch_id r,
                      fp_deficit = fa_deficit r, fp_priority = fa_priority r,
                      fp_shipped = v\<rparr>)"

definition first_pass :: "first_alloc_row list \<Rightarrow> sql_error + first_pass_row list" where
  "first_pass fa = collect (map first_pass_of fa)"

definition remaining :: "first_pass_row list \<Rightarrow> rc_row list \<Rightarrow> remaining_row list" where
  "remaining fps rcs =
     map (\<lambda>((p, ts), g). \<lparr>rem_product_id = p,
                           rem_remaining = of_int ts - sum_list (map (\<lambda>(fp, r). fp_shipped fp) g)\<rparr>)
         (group_by (\<lambda>(fp, r). (fp_product_id fp, rc_total_stock r))
            [(fp, r). fp \<leftarrow> fps, r \<leftarrow> rcs, rc_product_id r = fp_product_id fp])"

definition pass1 :: "first_pass_row list \<Rightarrow> remaining_row list \<Rightarrow> pass1_row list" where
  "pass1 fps rems =
     [\<lparr>p1_product_id = fp_product_id fp, p1_branch_id = fp_branch_id fp,
       p1_deficit = fp_deficit fp - fp_shipped fp, p1_priority = fp_priority fp,
       p1_shipped = fp_shipped fp, p1_remaining = rem_remaining rem\<rparr>.
        fp \<leftarrow> fps,
        rem \<leftarrow> rems,
        rem_product_id rem = fp_product_id fp]"

definition second_pass :: "pass1_row list \<Rightarrow> second_pass_row list" where
  "second_pass p1 =
     map (\<lambda>(r, n). \<lparr>sp_branch_id = p1_branch_id r, sp_product_id = p1_product_id r,
                     sp_shipment_qty =
                       p1_shipped r + (if of_nat n \<le> p1_remaining r then 1 else 0)\<rparr>)
         (row_number_over p1_product_id p1_priority p1)"

definition insert_second_pass :: "second_pass_row list \<Rightarrow> shipments_row list" where
  "insert_second_pass sp =
     [\<lparr>sh_branch_id = sp_branch_id r, sh_product_id = sp_product_id r,
       sh_shipment_qty = numeric_to_int (sp_shipment_qty r)\<rparr>.
        r \<leftarrow> sp,
        sp_shipment_qty r > 0]"

definition distribution_sql :: "database \<Rightarrow> sql_error + shipments_row list" where
  "distribution_sql db =
     (let av = available db;
          rcs = rc db
      in case first_pass (first_alloc av rcs (sum_weights av)) of
           Inl e \<Rightarrow> Inl e
         | Inr fps \<Rightarrow> Inr (insert_second_pass (second_pass (pass1 fps (remaining fps rcs)))))"

subsection \<open>The statement \<^verbatim>\<open>adjustment_sql\<close>\<close>

record branch_sums_row =
  bs_branch_id :: uuid
  bs_total_shipment :: int

record zeroed_row =
  z_product_id :: uuid
  z_shipment_qty :: int

record leftovers_row =
  lo_product_id :: uuid
  lo_leftover :: int

record avail_row =
  a_branch_id :: uuid
  a_product_id :: uuid
  a_priority :: int

record alloc_row =
  al_branch_id :: uuid
  al_product_id :: uuid
  al_add_qty :: int

definition branch_sums :: "shipments_row list \<Rightarrow> branch_sums_row list" where
  "branch_sums sh =
     map (\<lambda>(b, g). \<lparr>bs_branch_id = b, bs_total_shipment = sum_list (map sh_shipment_qty g)\<rparr>)
         (group_by sh_branch_id sh)"

definition to_zero :: "database \<Rightarrow> shipments_row list \<Rightarrow> uuid list" where
  "to_zero db sh =
     [bs_branch_id bs.
        bs \<leftarrow> branch_sums sh,
        s \<leftarrow> stores db,
        bs_branch_id bs = st_branch_id s,
        bs_total_shipment bs < st_min_shipment s]"

text \<open>
  \<^verbatim>\<open>DELETE FROM shipments sh USING to_zero tz WHERE sh.branch_id = tz.branch_id\<close>
  deletes every row of \<^verbatim>\<open>shipments\<close> that joins a row of \<^verbatim>\<open>to_zero\<close>, once, and returns
  it: \<open>deleted\<close> are the rows that go, \<open>kept\<close> the rows that stay in the table.
\<close>

definition deleted :: "database \<Rightarrow> shipments_row list \<Rightarrow> shipments_row list" where
  "deleted db sh = filter (\<lambda>r. sh_branch_id r \<in> set (to_zero db sh)) sh"

definition kept :: "database \<Rightarrow> shipments_row list \<Rightarrow> shipments_row list" where
  "kept db sh = filter (\<lambda>r. sh_branch_id r \<notin> set (to_zero db sh)) sh"

definition zeroed :: "database \<Rightarrow> shipments_row list \<Rightarrow> zeroed_row list" where
  "zeroed db sh =
     map (\<lambda>r. \<lparr>z_product_id = sh_product_id r, z_shipment_qty = sh_shipment_qty r\<rparr>)
         (deleted db sh)"

definition leftovers :: "zeroed_row list \<Rightarrow> leftovers_row list" where
  "leftovers z =
     map (\<lambda>(p, g). \<lparr>lo_product_id = p, lo_leftover = sum_list (map z_shipment_qty g)\<rparr>)
         (group_by z_product_id z)"

definition avail :: "database \<Rightarrow> avail_row list" where
  "avail db =
     [\<lparr>a_branch_id = bp_branch_id bp, a_product_id = bp_product_id bp,
       a_priority = st_priority s\<rparr>.
        bp \<leftarrow> branch_products db,
        s \<leftarrow> stores db,
        bp_branch_id bp = st_branch_id s,
        n \<leftarrow> needs db,
        bp_branch_id bp = nd_branch_id n \<and> bp_product_id bp = nd_product_id n,
        deficit n bp > 0]"

definition alloc :: "leftovers_row list \<Rightarrow> avail_row list \<Rightarrow> alloc_row list" where
  "alloc los av =
     map (\<lambda>((l, a), n). \<lparr>al_branch_id = a_branch_id a, al_product_id = lo_product_id l,
                          al_add_qty = (if int n \<le> lo_leftover l then 1 else 0)\<rparr>)
         (row_number_over (\<lambda>(l, a). lo_product_id l) (\<lambda>(l, a). a_priority a)
            [(l, a). l \<leftarrow> los, a \<leftarrow> av, a_product_id a = lo_product_id l])"

definition insert_alloc :: "alloc_row list \<Rightarrow> shipments_row list" where
  "insert_alloc al =
     [\<lparr>sh_branch_id = al_branch_id r, sh_product_id = al_product_id r,
       sh_shipment_qty = al_add_qty r\<rparr>.
        r \<leftarrow> al,
        al_add_qty r > 0]"

definition adjustment_sql :: "database \<Rightarrow> shipments_row list \<Rightarrow> shipments_row list" where
  "adjustment_sql db sh =
     kept db sh @ insert_alloc (alloc (leftovers (zeroed db sh)) (avail db))"

subsection \<open>The run\<close>

text \<open>
  \<^verbatim>\<open>distribute\<close> drops and recreates \<^verbatim>\<open>shipments\<close>, runs the first statement on the empty
  table and the second on what the first has written. Its result is the content of
  \<^verbatim>\<open>shipments\<close> after the run, or the error that ended it.
\<close>

definition distribute :: "database \<Rightarrow> sql_error + shipments_row list" where
  "distribute db =
     (case distribution_sql db of
        Inl e \<Rightarrow> Inl e
      | Inr sh \<Rightarrow> Inr (adjustment_sql db sh))"

subsection \<open>What the claims speak of\<close>

text \<open>The common table expression \<^verbatim>\<open>first_pass\<close> of the first statement on a database.\<close>

definition first_pass_rows :: "database \<Rightarrow> sql_error + first_pass_row list" where
  "first_pass_rows db =
     first_pass (first_alloc (available db) (rc db) (sum_weights (available db)))"

text \<open>The total central stock of a product: its stock summed over all central locations.\<close>

definition total_central_stock :: "database \<Rightarrow> uuid \<Rightarrow> rat" where
  "total_central_stock db p =
     sum_list (map rcp_stock (filter (\<lambda>r. rcp_product_id r = p) (rc_products db)))"

text \<open>The quantity a shipments table holds for a product, a branch, a pair.\<close>

definition product_shipment :: "shipments_row list \<Rightarrow> uuid \<Rightarrow> int" where
  "product_shipment sh p =
     sum_list (map sh_shipment_qty (filter (\<lambda>r. sh_product_id r = p) sh))"

definition branch_shipment :: "shipments_row list \<Rightarrow> uuid \<Rightarrow> int" where
  "branch_shipment sh b =
     sum_list (map sh_shipment_qty (filter (\<lambda>r. sh_branch_id r = b) sh))"

definition pair_rows :: "shipments_row list \<Rightarrow> uuid \<Rightarrow> uuid \<Rightarrow> shipments_row list" where
  "pair_rows sh b p = filter (\<lambda>r. sh_branch_id r = b \<and> sh_product_id r = p) sh"

definition pair_shipment :: "shipments_row list \<Rightarrow> uuid \<Rightarrow> uuid \<Rightarrow> int" where
  "pair_shipment sh b p = sum_list (map sh_shipment_qty (pair_rows sh b p))"

definition first_pass_shipped :: "first_pass_row list \<Rightarrow> uuid \<Rightarrow> rat" where
  "first_pass_shipped fps p =
     sum_list (map fp_shipped (filter (\<lambda>r. fp_product_id r = p) fps))"






text \<open>The primary keys that \<^verbatim>\<open>populate_db.py\<close> declares on the input tables.\<close>

definition primary_keys :: "database \<Rightarrow> bool" where
  "primary_keys db \<longleftrightarrow>
     distinct (map (\<lambda>bp. (bp_product_id bp, bp_branch_id bp)) (branch_products db)) \<and>
     distinct (map (\<lambda>r. (rcp_product_id r, rcp_branch_id r)) (rc_products db)) \<and>
     distinct (map st_branch_id (stores db)) \<and>
     distinct (map (\<lambda>n. (nd_branch_id n, nd_product_id n)) (needs db))"

subsection \<open>The statements in closed form\<close>

text \<open>
  The definitions of this subsection are not part of the model: they name what the common
  table expressions hold, row by row and product by product, and the lemmas below prove
  that the statements compute just that. \<open>leftover\<close> is the leftover pool of a product,
  \<open>eligible\<close> are the rows of \<^verbatim>\<open>avail\<close> for a product, \<open>reallocated\<close> is what the
  second statement inserts; \<open>total_stock\<close> and \<open>total_weight\<close> are the two aggregates of
  the first statement, \<open>share\<close> the floor of the proportional share with the zero
  denominator as the share zero.
\<close>

definition leftover :: "database \<Rightarrow> shipments_row list \<Rightarrow> uuid \<Rightarrow> int" where
  "leftover db sh p =
     sum_list (map lo_leftover (filter (\<lambda>l. lo_product_id l = p) (leftovers (zeroed db sh))))"


definition reallocated :: "database \<Rightarrow> shipments_row list \<Rightarrow> shipments_row list" where
  "reallocated db sh = insert_alloc (alloc (leftovers (zeroed db sh)) (avail db))"

definition total_stock :: "database \<Rightarrow> uuid \<Rightarrow> int" where
  "total_stock db p = numeric_to_int (total_central_stock db p)"

definition total_weight :: "available_row list \<Rightarrow> uuid \<Rightarrow> rat" where
  "total_weight av p =
     sum_list (map (\<lambda>a. av_deficit a * of_int (av_priority a))
                   (filter (\<lambda>a. av_product_id a = p) av))"

definition central_products :: "database \<Rightarrow> uuid set" where
  "central_products db = rcp_product_id ` set (rc_products db)"

definition first_alloc_of :: "database \<Rightarrow> available_row list \<Rightarrow> available_row \<Rightarrow> first_alloc_row" where
  "first_alloc_of db av a =
     \<lparr>fa_product_id = av_product_id a, fa_branch_id = av_branch_id a,
      fa_deficit = av_deficit a, fa_priority = av_priority a,
      fa_total_stock = total_stock db (av_product_id a),
      fa_total_weight = total_weight av (av_product_id a)\<rparr>"

definition share :: "first_alloc_row \<Rightarrow> int" where
  "share r =
     (if fa_total_weight r = 0 then 0
      else \<lfloor>of_int (fa_total_stock r) * (fa_deficit r * of_int (fa_priority r))
             / fa_total_weight r\<rfloor>)"

definition first_pass_row_of :: "first_alloc_row \<Rightarrow> first_pass_row" where
  "first_pass_row_of r =
     \<lparr>fp_product_id = fa_product_id r, fp_branch_id = fa_branch_id r,
      fp_deficit = fa_deficit r, fp_priority = fa_priority r,
      fp_shipped = min (of_int (share r)) (fa_deficit r)\<rparr>"

definition first_pass_list :: "database \<Rightarrow> first_pass_row list" where
  "first_pass_list db =
     map (\<lambda>a. first_pass_row_of (first_alloc_of db (available db) a))
         (filter (\<lambda>a. av_product_id a \<in> central_products db) (available db))"

definition remaining_of :: "database \<Rightarrow> first_pass_row list \<Rightarrow> uuid \<Rightarrow> rat" where
  "remaining_of db fps p = of_int (total_stock db p) - first_pass_shipped fps p"

definition pass1_of :: "database \<Rightarrow> first_pass_row list \<Rightarrow> first_pass_row \<Rightarrow> pass1_row" where
  "pass1_of db fps fp =
     \<lparr>p1_product_id = fp_product_id fp, p1_branch_id = fp_branch_id fp,
      p1_deficit = fp_deficit fp - fp_shipped fp, p1_priority = fp_priority fp,
      p1_shipped = fp_shipped fp, p1_remaining = remaining_of db fps (fp_product_id fp)\<rparr>"

definition second_pass_of :: "pass1_row \<times> nat \<Rightarrow> second_pass_row" where
  "second_pass_of rn =
     \<lparr>sp_branch_id = p1_branch_id (fst rn), sp_product_id = p1_product_id (fst rn),
      sp_shipment_qty =
        p1_shipped (fst rn) + (if of_nat (snd rn) \<le> p1_remaining (fst rn) then 1 else 0)\<rparr>"

subsection \<open>Concrete inputs\<close>

text \<open>
  Scenario B of the specification: one product, 11 units at the centre, two branches of
  need 5 and no stock, priorities 2 and 3, minimal shipments \<open>m1\<close> and \<open>m2\<close>.
\<close>

definition scenario_B :: "int \<Rightarrow> int \<Rightarrow> database" where
  "scenario_B m1 m2 =
     \<lparr>branch_products =
        [\<lparr>bp_product_id = 1, bp_branch_id = 1, bp_stock = 0, bp_reserve = 0, bp_transit = 0\<rparr>,
         \<lparr>bp_product_id = 1, bp_branch_id = 2, bp_stock = 0, bp_reserve = 0, bp_transit = 0\<rparr>],
      rc_products =
        [\<lparr>rcp_product_id = 1, rcp_branch_id = 9, rcp_stock = 11, rcp_reserve = 0, rcp_transit = 0\<rparr>],
      stores =
        [\<lparr>st_branch_id = 1, st_priority = 2, st_min_shipment = m1\<rparr>,
         \<lparr>st_branch_id = 2, st_priority = 3, st_min_shipment = m2\<rparr>],
      needs =
        [\<lparr>nd_branch_id = 1, nd_product_id = 1, nd_need = 5\<rparr>,
         \<lparr>nd_branch_id = 2, nd_product_id = 1, nd_need = 5\<rparr>]\<rparr>"

definition scenario_B_first_pass :: "first_pass_row list" where
  "scenario_B_first_pass =
     [\<lparr>fp_product_id = 1, fp_branch_id = 1, fp_deficit = 5, fp_priority = 2, fp_shipped = 4\<rparr>,
      \<lparr>fp_product_id = 1, fp_branch_id = 2, fp_deficit = 5, fp_priority = 3, fp_shipped = 5\<rparr>]"

definition scenario_B_shipments :: "shipments_row list" where
  "scenario_B_shipments =
     [\<lparr>sh_branch_id = 2, sh_product_id = 1, sh_shipment_qty = 6\<rparr>,
      \<lparr>sh_branch_id = 1, sh_product_id = 1, sh_shipment_qty = 5\<rparr>]"

text \<open>
  One product, one branch (no stock, need \<open>n\<close>, priority 1, minimal shipment 1) and one
  central location holding \<open>c\<close> units, with \<open>s\<close> units already at the branch.
\<close>

definition one_branch :: "rat \<Rightarrow> rat \<Rightarrow> int \<Rightarrow> database" where
  "one_branch c s n =
     \<lparr>branch_products =
        [\<lparr>bp_product_id = 1, bp_branch_id = 1, bp_stock = s, bp_reserve = 0, bp_transit = 0\<rparr>],
      rc_products =
        [\<lparr>rcp_product_id = 1, rcp_branch_id = 9, rcp_stock = c, rcp_reserve = 0, rcp_transit = 0\<rparr>],
      stores = [\<lparr>st_branch_id = 1, st_priority = 1, st_min_shipment = 1\<rparr>],
      needs = [\<lparr>nd_branch_id = 1, nd_product_id = 1, nd_need = n\<rparr>]\<rparr>"

text \<open>
  Five units of product 1 at the centre; branch 1 (priority 5) holds 10 units and needs 3,
  so its deficit is 0; branch 2 (priority 1) holds nothing and needs 2.
\<close>

definition stocked_branch :: database where
  "stocked_branch =
     \<lparr>branch_products =
        [\<lparr>bp_product_id = 1, bp_branch_id = 1, bp_stock = 10, bp_reserve = 0, bp_transit = 0\<rparr>,
         \<lparr>bp_product_id = 1, bp_branch_id = 2, bp_stock = 0, bp_reserve = 0, bp_transit = 0\<rparr>],
      rc_products =
        [\<lparr>rcp_product_id = 1, rcp_branch_id = 9, rcp_stock = 5, rcp_reserve = 0, rcp_transit = 0\<rparr>],
      stores =
        [\<lparr>st_branch_id = 1, st_priority = 5, st_min_shipment = 1\<rparr>,
         \<lparr>st_branch_id = 2, st_priority = 1, st_min_shipment = 1\<rparr>],
      needs =
        [\<lparr>nd_branch_id = 1, nd_product_id = 1, nd_need = 3\<rparr>,
         \<lparr>nd_branch_id = 2, nd_product_id = 1, nd_need = 2\<rparr>]\<rparr>"


text \<open>
  Four units of product 1 at the centre and two branches of need 5, no stock and priority 1;
  branch 1 takes no shipment below 100 units, branch 2 any.
\<close>

definition pruned_branch :: database where
  "pruned_branch =
     \<lparr>branch_products =
        [\<lparr>bp_product_id = 1, bp_branch_id = 1, bp_stock = 0, bp_reserve = 0, bp_transit = 0\<rparr>,
         \<lparr>bp_product_id = 1, bp_branch_id = 2, bp_stock = 0, bp_reserve = 0, bp_transit = 0\<rparr>],
      rc_products =
        [\<lparr>rcp_product_id = 1, rcp_branch_id = 9, rcp_stock = 4, rcp_reserve = 0, rcp_transit = 0\<rparr>],
      stores =
        [\<lparr>st_branch_id = 1, st_priority = 1, st_min_shipment = 100\<rparr>,
         \<lparr>st_branch_id = 2, st_priority = 1, st_min_shipment = 1\<rparr>],
      needs =
        [\<lparr>nd_branch_id = 1, nd_product_id = 1, nd_need = 5\<rparr>,
         \<lparr>nd_branch_id = 2, nd_product_id = 1, nd_need = 5\<rparr>]\<rparr>"

section \<open>Properties\<close>

subsection \<open>Scenario B\<close>

lemma scenario_B_first_pass_rows:
  "first_pass_rows (scenario_B m1 m2) = Inr scenario_B_first_pass"
  by code_simp

lemma scenario_B_remaining:
  "remaining scenario_B_first_pass (rc (scenario_B m1 m2)) =
     [\<lparr>rem_product_id = 1, rem_remaining = 2\<rparr>]"
  by code_simp

lemma scenario_B_distribution_sql:
  "distribution_sql (scenario_B m1 m2) = Inr scenario_B_shipments"
  by code_simp

lemma scenario_B_branch_sums:
  "branch_sums scenario_B_shipments =
     [\<lparr>bs_branch_id = 2, bs_total_shipment = 6\<rparr>, \<lparr>bs_branch_id = 1, bs_total_shipment = 5\<rparr>]"
  by code_simp

lemma scenario_B_to_zero:
  assumes "m1 \<le> 5" and "m2 \<le> 6"
  shows "to_zero (scenario_B m1 m2) scenario_B_shipments = []"
  unfolding to_zero_def scenario_B_branch_sums using assms by (simp add: scenario_B_def)

lemma alloc_no_leftovers: "insert_alloc (alloc (leftovers []) av) = []"
  by (simp add: leftovers_def group_by_def alloc_def row_number_over_def insert_alloc_def)

lemma scenario_B_adjustment_sql:
  assumes "m1 \<le> 5" and "m2 \<le> 6"
  shows "adjustment_sql (scenario_B m1 m2) scenario_B_shipments = scenario_B_shipments"
  unfolding adjustment_sql_def kept_def zeroed_def deleted_def scenario_B_to_zero [OF assms]
  by (simp add: alloc_no_leftovers)

text \<open>
  Claim C10, as the specification states it: in scenario B the first pass ships 4 and 6
  units, the one remaining unit goes to the branch of priority 3, and the final shipments
  are 4 and 7. The code does not compute that: the first pass caps the share of 6 at the
  deficit of 5, so that the branch of priority 3 (branch 2) has 5 units after the first
  pass and not 6, and the final shipments are not 4 and 7.
\<close>

theorem scenario_B_counterexample:
  "first_pass_rows (scenario_B 1 1) = Inr scenario_B_first_pass \<and>
   distribute (scenario_B 1 1) = Inr scenario_B_shipments \<and>
   \<not> (map fp_shipped scenario_B_first_pass = [4, 6]) \<and>
   \<not> (pair_shipment scenario_B_shipments 1 1 = 4 \<and> pair_shipment scenario_B_shipments 2 1 = 7)"
  by code_simp

text \<open>
  Claim C10, amended: in scenario B, with minimal shipments of at most 5 and 6 units, the
  first pass ships 4 and 5 units (the share of 6 is capped at the deficit of 5), 2 units
  remain, both branches are within rank 2 and get one each, and the final shipments are
  5 units for the branch of priority 2 and 6 for the branch of priority 3.
\<close>

theorem scenario_B_result:
  assumes "m1 \<le> 5" and "m2 \<le> 6"
  shows "first_pass_rows (scenario_B m1 m2) = Inr scenario_B_first_pass \<and>
         map fp_shipped scenario_B_first_pass = [4, 5] \<and>
         remaining scenario_B_first_pass (rc (scenario_B m1 m2)) =
           [\<lparr>rem_product_id = 1, rem_remaining = 2\<rparr>] \<and>
         distribute (scenario_B m1 m2) = Inr scenario_B_shipments \<and>
         pair_shipment scenario_B_shipments 1 1 = 5 \<and>
         pair_shipment scenario_B_shipments 2 1 = 6"
proof -
  have "distribute (scenario_B m1 m2) = Inr scenario_B_shipments"
    unfolding distribute_def scenario_B_distribution_sql
    by (simp only: sum.case scenario_B_adjustment_sql [OF assms])
  moreover have "map fp_shipped scenario_B_first_pass = [4, 5]"
    by (simp add: scenario_B_first_pass_def)
  moreover have "pair_shipment scenario_B_shipments 1 1 = 5"
    and "pair_shipment scenario_B_shipments 2 1 = 6"
    by (simp_all add: pair_shipment_def pair_rows_def scenario_B_shipments_def)
  ultimately show ?thesis
    using scenario_B_first_pass_rows scenario_B_remaining by blast
qed

theorem scenario_B_result_witness:
  "(1::int) \<le> 5 \<and> (1::int) \<le> 6 \<and>
   first_pass_rows (scenario_B 1 1) = Inr scenario_B_first_pass \<and>
   distribute (scenario_B 1 1) = Inr scenario_B_shipments"
  using scenario_B_result [of 1 1] by simp

subsection \<open>Runs on concrete inputs\<close>



text \<open>
  Claim C2 on the code: a pair of deficit 0 never appears in the output with a positive
  quantity. Branch 1 of \<open>stocked_branch\<close> has deficit 0 for product 1; the first pass
  ships it nothing and leaves 3 of the 5 units; \<^verbatim>\<open>second_pass\<close> ranks every row of
  \<^verbatim>\<open>pass1\<close>, of whatever deficit, so branch 1, of the highest priority, has rank 1 and
  gets one unit.
\<close>

theorem zero_deficit_shipment:
  "map av_deficit (available stocked_branch) = [0, 2] \<and>
   map av_branch_id (available stocked_branch) = [1, 2] \<and>
   distribute stocked_branch =
     Inr [\<lparr>sh_branch_id = 1, sh_product_id = 1, sh_shipment_qty = 1\<rparr>,
          \<lparr>sh_branch_id = 2, sh_product_id = 1, sh_shipment_qty = 3\<rparr>]"
  by code_simp

text \<open>
  Claim C6 on the code: a product of total weight zero gets no shipment rows. The only
  branch of \<open>one_branch 5 10 3\<close> has deficit 0, so the total weight is 0; the division
  does not fault and the first pass ships 0, but all 5 units remain and the branch, of
  rank 1, gets one of them from \<^verbatim>\<open>second_pass\<close>.
\<close>

theorem zero_weight_shipment:
  "sum_weights (available (one_branch 5 10 3)) =
     [\<lparr>sw_product_id = 1, sw_total_weight = 0\<rparr>] \<and>
   first_pass_rows (one_branch 5 10 3) =
     Inr [\<lparr>fp_product_id = 1, fp_branch_id = 1, fp_deficit = 0, fp_priority = 1,
           fp_shipped = 0\<rparr>] \<and>
   distribute (one_branch 5 10 3) =
     Inr [\<lparr>sh_branch_id = 1, sh_product_id = 1, sh_shipment_qty = 1\<rparr>]"
  by code_simp



text \<open>
  Claim C9, as the specification states it: the output has at most one row per pair of
  branch and product, a reallocated unit being added to the row there is. Branch 1 of
  \<open>pruned_branch\<close> is pruned and its 2 units are handed out again, one to branch 1 and
  one to branch 2, which keeps its row of 2 units and gets a second row of 1 unit.
\<close>

theorem one_row_per_pair_counterexample:
  "primary_keys pruned_branch \<and>
   distribute pruned_branch =
     Inr [\<lparr>sh_branch_id = 2, sh_product_id = 1, sh_shipment_qty = 2\<rparr>,
          \<lparr>sh_branch_id = 1, sh_product_id = 1, sh_shipment_qty = 1\<rparr>,
          \<lparr>sh_branch_id = 2, sh_product_id = 1, sh_shipment_qty = 1\<rparr>] \<and>
   pair_rows [\<lparr>sh_branch_id = 2, sh_product_id = 1, sh_shipment_qty = 2\<rparr>,
              \<lparr>sh_branch_id = 1, sh_product_id = 1, sh_shipment_qty = 1\<rparr>,
              \<lparr>sh_branch_id = 2, sh_product_id = 1, sh_shipment_qty = 1\<rparr>] 2 1 =
     [\<lparr>sh_branch_id = 2, sh_product_id = 1, sh_shipment_qty = 2\<rparr>,
      \<lparr>sh_branch_id = 2, sh_product_id = 1, sh_shipment_qty = 1\<rparr>]"
  by code_simp

subsection \<open>Groups and row numbers\<close>

lemma concat_map_if: "concat (map (\<lambda>x. if P x then f x else []) xs) = concat (map f (filter P xs))"
  by (induction xs) auto

lemma concat_map_single: "concat (map (\<lambda>x. [f x]) xs) = map f xs"
  by (induction xs) auto

lemma filter_eq_distinct:
  "distinct ks \<Longrightarrow> filter (\<lambda>k. k = p) ks = (if p \<in> set ks then [p] else [])"
  by (induction ks) auto

lemma group_by_lookup:
  "filter (\<lambda>kg. fst kg = p) (group_by key rows) =
     (if p \<in> key ` set rows then [(p, filter (\<lambda>r. key r = p) rows)] else [])"
  unfolding group_by_def by (simp add: filter_map o_def filter_eq_distinct)

lemma set_group_by:
  "set (group_by key rows) = (\<lambda>k. (k, filter (\<lambda>r. key r = k) rows)) ` key ` set rows"
  unfolding group_by_def by simp

lemma filter_zip_const:
  assumes "\<forall>x \<in> set xs. part x = k"
  shows "filter (\<lambda>rn. part (fst rn) = p) (zip xs ns) = (if k = p then zip xs ns else [])"
proof (cases "k = p")
  case True
  have "\<forall>rn \<in> set (zip xs ns). part (fst rn) = p"
    using assms True by (auto dest: set_zip_leftD)
  then show ?thesis using True by simp
next
  case False
  have "\<forall>rn \<in> set (zip xs ns). part (fst rn) \<noteq> p"
    using assms False by (auto dest: set_zip_leftD)
  then show ?thesis using False by simp
qed

lemma row_number_over_partition:
  "filter (\<lambda>rn. part (fst rn) = p) (row_number_over part desc rows) =
     zip (sort_key (\<lambda>r. - desc r) (filter (\<lambda>r. part r = p) rows))
         [1 ..< Suc (length (filter (\<lambda>r. part r = p) rows))]"
proof -
  let ?g = "\<lambda>k. filter (\<lambda>r. part r = k) rows"
  let ?F = "\<lambda>k. zip (sort_key (\<lambda>r. - desc r) (?g k)) [1 ..< Suc (length (?g k))]"
  let ?ks = "remdups (map part rows)"
  have rn: "row_number_over part desc rows = concat (map ?F ?ks)"
    unfolding row_number_over_def group_by_def by (simp add: o_def del: upt_Suc)
  have each: "filter (\<lambda>rn. part (fst rn) = p) (?F k) = (if k = p then ?F k else [])" for k
    by (rule filter_zip_const) simp
  have "filter (\<lambda>rn. part (fst rn) = p) (concat (map ?F ?ks)) =
          concat (map (\<lambda>k. if k = p then ?F k else []) ?ks)"
    by (simp only: filter_concat map_map o_def each)
  also have "\<dots> = concat (map ?F (filter (\<lambda>k. k = p) ?ks))"
    by (rule concat_map_if)
  also have "\<dots> = (if p \<in> part ` set rows then ?F p else [])"
    by (simp add: filter_eq_distinct)
  also have "\<dots> = ?F p"
  proof (cases "p \<in> part ` set rows")
    case False
    then have "?g p = []" by (auto simp: filter_empty_conv)
    then show ?thesis by simp
  qed simp
  finally show ?thesis using rn by (simp del: upt_Suc)
qed

subsection \<open>Pruning\<close>

lemma branch_sums_set:
  "set (branch_sums sh) =
     (\<lambda>b. \<lparr>bs_branch_id = b, bs_total_shipment = branch_shipment sh b\<rparr>) ` sh_branch_id ` set sh"
  unfolding branch_sums_def set_map set_group_by branch_shipment_def
  by (simp add: image_image)

lemma to_zero_iff:
  "b \<in> set (to_zero db sh) \<longleftrightarrow>
     b \<in> sh_branch_id ` set sh \<and>
     (\<exists>s \<in> set (stores db). st_branch_id s = b \<and> branch_shipment sh b < st_min_shipment s)"
  unfolding to_zero_def by (force simp: branch_sums_set image_iff)

lemma sum_list_filter_split:
  fixes f :: "'a \<Rightarrow> int"
  shows "sum_list (map f (filter P (filter (\<lambda>r. \<not> Q r) xs))) +
         sum_list (map f (filter P (filter Q xs))) = sum_list (map f (filter P xs))"
  by (induction xs) auto

lemma kept_deleted_sum:
  fixes f :: "shipments_row \<Rightarrow> int"
  shows "sum_list (map f (filter P (kept db sh))) + sum_list (map f (filter P (deleted db sh))) =
     sum_list (map f (filter P sh))"
  unfolding kept_def deleted_def by (rule sum_list_filter_split)

lemma leftovers_lookup:
  "filter (\<lambda>l. lo_product_id l = p) (leftovers z) =
     (if p \<in> z_product_id ` set z
      then [\<lparr>lo_product_id = p,
             lo_leftover = sum_list (map z_shipment_qty (filter (\<lambda>r. z_product_id r = p) z))\<rparr>]
      else [])"
proof -
  have "filter (\<lambda>l. lo_product_id l = p) (leftovers z) =
          map (\<lambda>(p, g). \<lparr>lo_product_id = p, lo_leftover = sum_list (map z_shipment_qty g)\<rparr>)
              (filter (\<lambda>kg. fst kg = p) (group_by z_product_id z))"
    unfolding leftovers_def by (simp add: filter_map o_def case_prod_beta)
  then show ?thesis by (simp add: group_by_lookup)
qed

lemma leftover_eq: "leftover db sh p = product_shipment (deleted db sh) p"
proof -
  have "sum_list (map z_shipment_qty (filter (\<lambda>r. z_product_id r = p) (zeroed db sh))) =
          product_shipment (deleted db sh) p"
    unfolding zeroed_def product_shipment_def by (simp add: filter_map o_def)
  moreover have "p \<notin> z_product_id ` set (zeroed db sh) \<Longrightarrow> product_shipment (deleted db sh) p = 0"
  proof -
    assume "p \<notin> z_product_id ` set (zeroed db sh)"
    then have "filter (\<lambda>r. sh_product_id r = p) (deleted db sh) = []"
      unfolding zeroed_def by (force simp: filter_empty_conv image_iff)
    then show ?thesis by (simp add: product_shipment_def)
  qed
  ultimately show ?thesis
    unfolding leftover_def by (simp add: leftovers_lookup)
qed

lemma pruned_branch_rows:
  assumes "s \<in> set (stores db)" and "branch_shipment sh (st_branch_id s) < st_min_shipment s"
  shows "filter (\<lambda>r. sh_branch_id r = st_branch_id s) (kept db sh) = []"
    and "filter (\<lambda>r. sh_branch_id r = st_branch_id s) (deleted db sh) =
           filter (\<lambda>r. sh_branch_id r = st_branch_id s) sh"
proof -
  have tz: "sh_branch_id r \<in> set (to_zero db sh)" if "r \<in> set sh" "sh_branch_id r = st_branch_id s" for r
    using that assms by (force simp: to_zero_iff image_iff)
  show "filter (\<lambda>r. sh_branch_id r = st_branch_id s) (kept db sh) = []"
    unfolding kept_def using tz by (auto simp: filter_empty_conv)
  show "filter (\<lambda>r. sh_branch_id r = st_branch_id s) (deleted db sh) =
           filter (\<lambda>r. sh_branch_id r = st_branch_id s) sh"
    unfolding deleted_def using tz by (auto intro: filter_cong)
qed

lemma kept_branch_rows:
  "filter (\<lambda>r. sh_branch_id r = b) (kept db sh) =
     (if b \<in> set (to_zero db sh) then [] else filter (\<lambda>r. sh_branch_id r = b) sh)"
  unfolding kept_def by (auto simp: filter_empty_conv intro: filter_cong)

lemma kept_threshold:
  assumes "branch_shipment (kept db sh) b \<noteq> 0" and "s \<in> set (stores db)" and "st_branch_id s = b"
  shows "st_min_shipment s \<le> branch_shipment (kept db sh) b"
proof -
  have nz: "b \<notin> set (to_zero db sh)"
    using assms(1) by (auto simp: branch_shipment_def kept_branch_rows)
  then have eq: "branch_shipment (kept db sh) b = branch_shipment sh b"
    by (simp add: branch_shipment_def kept_branch_rows)
  have "b \<in> sh_branch_id ` set sh"
  proof (rule ccontr)
    assume "b \<notin> sh_branch_id ` set sh"
    then have "filter (\<lambda>r. sh_branch_id r = b) sh = []"
      by (auto simp: filter_empty_conv)
    then show False using assms(1) eq by (simp add: branch_shipment_def)
  qed
  then show ?thesis using nz assms(2,3) eq by (auto simp: to_zero_iff)
qed

subsection \<open>Leftover reallocation\<close>

lemma insort_key_map:
  "insort_key k (f x) (map f xs) = map f (insort_key (\<lambda>y. k (f y)) x xs)"
  by (induction xs) auto

lemma sort_key_map: "sort_key k (map f xs) = map f (sort_key (\<lambda>y. k (f y)) xs)"
  by (induction xs) (auto simp: insort_key_map)




lemma join_row_partition:
  "filter (\<lambda>la. lo_product_id (fst la) = p)
          (concat (map (\<lambda>a. if a_product_id a = lo_product_id l then [(l, a)] else []) av)) =
     (if lo_product_id l = p then map (Pair l) (filter (\<lambda>a. a_product_id a = p) av) else [])"
  by (induction av) auto

lemma alloc_join_partition:
  "filter (\<lambda>la. lo_product_id (fst la) = p)
          [(l, a). l \<leftarrow> los, a \<leftarrow> av, a_product_id a = lo_product_id l] =
     concat (map (\<lambda>l. map (Pair l) (filter (\<lambda>a. a_product_id a = p) av))
                 (filter (\<lambda>l. lo_product_id l = p) los))"
  by (induction los) (auto simp: join_row_partition)

lemma alloc_partition:
  assumes "filter (\<lambda>l. lo_product_id l = p) los = [lo]"
  shows "filter (\<lambda>r. al_product_id r = p) (alloc los av) =
           map (\<lambda>(a, n). \<lparr>al_branch_id = a_branch_id a, al_product_id = lo_product_id lo,
                           al_add_qty = (if int n \<le> lo_leftover lo then 1 else 0)\<rparr>)
               (zip (sort_key (\<lambda>a. - a_priority a) (filter (\<lambda>a. a_product_id a = p) av))
                    [1 ..< Suc (length (filter (\<lambda>a. a_product_id a = p) av))])"
proof -
  let ?J = "[(l, a). l \<leftarrow> los, a \<leftarrow> av, a_product_id a = lo_product_id l]"
  let ?E = "filter (\<lambda>a. a_product_id a = p) av"
  let ?G = "\<lambda>((l, a), n). \<lparr>al_branch_id = a_branch_id a, al_product_id = lo_product_id l,
                            al_add_qty = (if int n \<le> lo_leftover l then 1 else (0::int))\<rparr>"
  let ?part = "\<lambda>(l :: leftovers_row, a :: avail_row). lo_product_id l"
  let ?desc = "\<lambda>(l :: leftovers_row, a :: avail_row). a_priority a"
  have part: "(\<lambda>x. al_product_id (?G x) = p) = (\<lambda>rn. ?part (fst rn) = p)"
    by (auto simp: fun_eq_iff)
  have Jp: "filter (\<lambda>la. ?part la = p) ?J = map (Pair lo) ?E"
    using alloc_join_partition [where p = p and los = los and av = av] assms by (simp add: case_prod_beta)
  have "filter (\<lambda>r. al_product_id r = p) (alloc los av) =
          map ?G (filter (\<lambda>rn. ?part (fst rn) = p) (row_number_over ?part ?desc ?J))"
    unfolding alloc_def by (simp only: filter_map o_def part)
  also have "\<dots> = map ?G (zip (sort_key (\<lambda>la. - ?desc la) (map (Pair lo) ?E))
                              [1 ..< Suc (length (map (Pair lo) ?E))])"
    by (simp only: row_number_over_partition Jp)
  also have "\<dots> = map ?G (map (\<lambda>(a, n). ((lo, a), n))
                              (zip (sort_key (\<lambda>a. - a_priority a) ?E) [1 ..< Suc (length ?E)]))"
    by (simp add: sort_key_map o_def zip_map1 del: upt_Suc)
  finally show ?thesis by (simp add: o_def case_prod_beta del: upt_Suc)
qed

lemma alloc_no_partition:
  assumes "filter (\<lambda>l. lo_product_id l = p) los = []"
  shows "filter (\<lambda>r. al_product_id r = p) (alloc los av) = []"
proof -
  let ?J = "[(l, a). l \<leftarrow> los, a \<leftarrow> av, a_product_id a = lo_product_id l]"
  let ?G = "\<lambda>((l, a), n). \<lparr>al_branch_id = a_branch_id a, al_product_id = lo_product_id l,
                            al_add_qty = (if int n \<le> lo_leftover l then 1 else (0::int))\<rparr>"
  let ?part = "\<lambda>(l :: leftovers_row, a :: avail_row). lo_product_id l"
  let ?desc = "\<lambda>(l :: leftovers_row, a :: avail_row). a_priority a"
  have part: "(\<lambda>x. al_product_id (?G x) = p) = (\<lambda>rn. ?part (fst rn) = p)"
    by (auto simp: fun_eq_iff)
  have Jp: "filter (\<lambda>la. ?part la = p) ?J = []"
    using alloc_join_partition [where p = p and los = los and av = av] assms by (simp add: case_prod_beta)
  have "filter (\<lambda>r. al_product_id r = p) (alloc los av) =
          map ?G (filter (\<lambda>rn. ?part (fst rn) = p) (row_number_over ?part ?desc ?J))"
    unfolding alloc_def by (simp only: filter_map o_def part)
  also have "\<dots> = []"
    by (simp only: row_number_over_partition Jp) simp
  finally show ?thesis .
qed






subsection \<open>The first pass in closed form\<close>

lemma rc_lookup:
  "filter (\<lambda>r. rc_product_id r = p) (rc db) =
     (if p \<in> central_products db
      then [\<lparr>rc_product_id = p, rc_total_stock = total_stock db p\<rparr>] else [])"
proof -
  have "filter (\<lambda>r. rc_product_id r = p) (rc db) =
          map (\<lambda>(p, g). \<lparr>rc_product_id = p,
                          rc_total_stock = numeric_to_int (sum_list (map rcp_stock g))\<rparr>)
              (filter (\<lambda>kg. fst kg = p) (group_by rcp_product_id (rc_products db)))"
    unfolding rc_def by (simp add: filter_map o_def case_prod_beta)
  then show ?thesis
    by (simp add: group_by_lookup central_products_def total_stock_def total_central_stock_def)
qed

lemma sum_weights_lookup:
  "filter (\<lambda>w. sw_product_id w = p) (sum_weights av) =
     (if p \<in> av_product_id ` set av
      then [\<lparr>sw_product_id = p, sw_total_weight = total_weight av p\<rparr>] else [])"
proof -
  have "filter (\<lambda>w. sw_product_id w = p) (sum_weights av) =
          map (\<lambda>(p, g). \<lparr>sw_product_id = p,
                          sw_total_weight =
                            sum_list (map (\<lambda>a. av_deficit a * of_int (av_priority a)) g)\<rparr>)
              (filter (\<lambda>kg. fst kg = p) (group_by av_product_id av))"
    unfolding sum_weights_def by (simp add: filter_map o_def case_prod_beta)
  then show ?thesis
    by (simp add: group_by_lookup total_weight_def)
qed

lemma first_alloc_rows:
  assumes "set xs \<subseteq> set av"
  shows "first_alloc xs (rc db) (sum_weights av) =
           map (first_alloc_of db av) (filter (\<lambda>a. av_product_id a \<in> central_products db) xs)"
  using assms
proof (induction xs)
  case Nil
  show ?case by (simp add: first_alloc_def)
next
  case (Cons a xs)
  let ?p = "av_product_id a"
  have sw: "filter (\<lambda>w. sw_product_id w = ?p) (sum_weights av) =
              [\<lparr>sw_product_id = ?p, sw_total_weight = total_weight av ?p\<rparr>]"
    using Cons.prems by (simp add: sum_weights_lookup)
  have head: "concat (map (\<lambda>r. if rc_product_id r = ?p
                 then concat (map (\<lambda>sw. if sw_product_id sw = ?p
                        then [\<lparr>fa_product_id = av_product_id a, fa_branch_id = av_branch_id a,
                               fa_deficit = av_deficit a, fa_priority = av_priority a,
                               fa_total_stock = rc_total_stock r,
                               fa_total_weight = sw_total_weight sw\<rparr>] else []) (sum_weights av))
                 else []) (rc db)) =
              (if ?p \<in> central_products db then [first_alloc_of db av a] else [])"
    by (simp add: concat_map_if sw rc_lookup first_alloc_of_def)
  have "first_alloc (a # xs) (rc db) (sum_weights av) =
          (if ?p \<in> central_products db then [first_alloc_of db av a] else []) @
          first_alloc xs (rc db) (sum_weights av)"
    unfolding first_alloc_def using head by simp
  then show ?case using Cons by simp
qed

lemma shipped_value: "shipped r = Inr (min (of_int (share r)) (fa_deficit r))"
  by (simp add: shipped_def sql_div_def sql_nullif_def sql_floor_def sql_coalesce_def
      sql_least_def share_def)

text \<open>
  The division never faults: \<^verbatim>\<open>NULLIF\<close> turns a zero denominator into \<^verbatim>\<open>NULL\<close>, the
  quotient is \<^verbatim>\<open>NULL\<close> and \<^verbatim>\<open>COALESCE\<close> makes the share 0.
\<close>

lemma shipped_no_fault: "shipped r \<noteq> Inl e"
  by (simp add: shipped_value)

lemma zero_weight_share:
  "fa_total_weight r = 0 \<Longrightarrow> shipped r = Inr (min 0 (fa_deficit r))"
  by (simp add: shipped_value share_def)

lemma collect_Inr: "collect (map (\<lambda>x. Inr (f x)) xs) = Inr (map f xs)"
  by (induction xs) auto

lemma first_pass_value: "first_pass fa = Inr (map first_pass_row_of fa)"
proof -
  have eq: "first_pass_of = (\<lambda>r. Inr (first_pass_row_of r))"
    by (simp add: fun_eq_iff first_pass_of_def shipped_value first_pass_row_of_def)
  show ?thesis unfolding first_pass_def eq by (rule collect_Inr)
qed

lemma first_pass_rows_value:
  "first_pass_rows db =
     Inr (map (\<lambda>a. first_pass_row_of (first_alloc_of db (available db) a))
              (filter (\<lambda>a. av_product_id a \<in> central_products db) (available db)))"
  unfolding first_pass_rows_def by (simp add: first_alloc_rows first_pass_value)

subsection \<open>The second pass in closed form\<close>

lemma first_pass_rows_list: "first_pass_rows db = Inr (first_pass_list db)"
  by (simp add: first_pass_rows_value first_pass_list_def)

lemma first_pass_list_central:
  "fp \<in> set (first_pass_list db) \<Longrightarrow> fp_product_id fp \<in> central_products db"
  by (auto simp: first_pass_list_def first_pass_row_of_def first_alloc_of_def)

lemma group_by_lookup_where:
  assumes "\<forall>r \<in> set rows. P (key r) \<longleftrightarrow> key r = k"
  shows "filter (\<lambda>kg. P (fst kg)) (group_by key rows) =
           (if k \<in> key ` set rows then [(k, filter (\<lambda>r. key r = k) rows)] else [])"
proof -
  have "filter P (remdups (map key rows)) = filter (\<lambda>x. x = k) (remdups (map key rows))"
    using assms by (intro filter_cong) auto
  then have "filter (\<lambda>kg. P (fst kg)) (group_by key rows) =
               filter (\<lambda>kg. fst kg = k) (group_by key rows)"
    unfolding group_by_def by (simp add: filter_map o_def)
  then show ?thesis by (simp add: group_by_lookup)
qed

lemma remaining_join:
  assumes "\<forall>fp \<in> set fps. fp_product_id fp \<in> central_products db"
  shows "[(fp, r). fp \<leftarrow> fps, r \<leftarrow> rc db, rc_product_id r = fp_product_id fp] =
           map (\<lambda>fp. (fp, \<lparr>rc_product_id = fp_product_id fp,
                            rc_total_stock = total_stock db (fp_product_id fp)\<rparr>)) fps"
  using assms by (induction fps) (auto simp: concat_map_if rc_lookup)

lemma remaining_lookup:
  assumes "\<forall>fp \<in> set fps. fp_product_id fp \<in> central_products db"
  shows "filter (\<lambda>r. rem_product_id r = p) (remaining fps (rc db)) =
           (if p \<in> fp_product_id ` set fps
            then [\<lparr>rem_product_id = p, rem_remaining = remaining_of db fps p\<rparr>] else [])"
proof -
  let ?f = "\<lambda>fp. (fp, \<lparr>rc_product_id = fp_product_id fp,
                         rc_total_stock = total_stock db (fp_product_id fp)\<rparr>)"
  let ?key = "\<lambda>(fp, r). (fp_product_id fp, rc_total_stock r)"
  let ?H = "\<lambda>((p, ts), g). \<lparr>rem_product_id = p,
              rem_remaining = of_int ts - sum_list (map (\<lambda>(fp, r). fp_shipped fp) g)\<rparr>"
  let ?J = "map ?f fps"
  let ?k = "(p, total_stock db p)"
  have rem: "remaining fps (rc db) = map ?H (group_by ?key ?J)"
    unfolding remaining_def remaining_join [OF assms] ..
  have "filter (\<lambda>r. rem_product_id r = p) (map ?H (group_by ?key ?J)) =
          map ?H (filter (\<lambda>kg. fst (fst kg) = p) (group_by ?key ?J))"
    by (simp add: filter_map o_def case_prod_beta)
  also have "filter (\<lambda>kg. fst (fst kg) = p) (group_by ?key ?J) =
               (if ?k \<in> ?key ` set ?J then [(?k, filter (\<lambda>r. ?key r = ?k) ?J)] else [])"
    by (rule group_by_lookup_where) auto
  also have "?k \<in> ?key ` set ?J \<longleftrightarrow> p \<in> fp_product_id ` set fps"
    by (auto simp: image_iff)
  also have "filter (\<lambda>r. ?key r = ?k) ?J = map ?f (filter (\<lambda>fp. fp_product_id fp = p) fps)"
  proof -
    have "filter (\<lambda>x. fp_product_id x = p \<and> total_stock db (fp_product_id x) = total_stock db p) fps =
            filter (\<lambda>fp. fp_product_id fp = p) fps"
      by (rule filter_cong) auto
    then show ?thesis by (simp add: filter_map o_def)
  qed
  finally show ?thesis
    unfolding rem
    by (simp add: remaining_of_def first_pass_shipped_def o_def)
qed

lemma pass1_rows:
  assumes "\<forall>fp \<in> set fps. fp_product_id fp \<in> central_products db" and "set xs \<subseteq> set fps"
  shows "pass1 xs (remaining fps (rc db)) = map (pass1_of db fps) xs"
  using assms(2)
proof (induction xs)
  case Nil
  show ?case by (simp add: pass1_def)
next
  case (Cons fp xs)
  have "pass1 (fp # xs) (remaining fps (rc db)) =
          pass1_of db fps fp # pass1 xs (remaining fps (rc db))"
    unfolding pass1_def using Cons.prems
    by (simp add: concat_map_if remaining_lookup [OF assms(1)] pass1_of_def)
  then show ?case using Cons by simp
qed

lemma second_pass_partition:
  "filter (\<lambda>r. sp_product_id r = p) (second_pass p1) =
     map second_pass_of
         (zip (sort_key (\<lambda>r. - p1_priority r) (filter (\<lambda>r. p1_product_id r = p) p1))
              [1 ..< Suc (length (filter (\<lambda>r. p1_product_id r = p) p1))])"
proof -
  have sp: "second_pass p1 = map second_pass_of (row_number_over p1_product_id p1_priority p1)"
    unfolding second_pass_def second_pass_of_def by (simp add: case_prod_beta)
  have "filter (\<lambda>r. sp_product_id r = p) (second_pass p1) =
          map second_pass_of
              (filter (\<lambda>rn. p1_product_id (fst rn) = p)
                      (row_number_over p1_product_id p1_priority p1))"
    unfolding sp by (simp add: filter_map o_def second_pass_of_def)
  then show ?thesis by (simp only: row_number_over_partition)
qed

lemma distribution_sql_value:
  "distribution_sql db =
     Inr (insert_second_pass
            (second_pass (map (pass1_of db (first_pass_list db)) (first_pass_list db))))"
proof -
  have "first_pass (first_alloc (available db) (rc db) (sum_weights (available db))) =
          Inr (first_pass_list db)"
    using first_pass_rows_list [of db] by (simp add: first_pass_rows_def)
  moreover have "pass1 (first_pass_list db) (remaining (first_pass_list db) (rc db)) =
                   map (pass1_of db (first_pass_list db)) (first_pass_list db)"
    by (rule pass1_rows) (auto dest: first_pass_list_central)
  ultimately show ?thesis
    by (simp add: distribution_sql_def Let_def)
qed

subsection \<open>Bounds of the first pass\<close>


















subsection \<open>The run never faults\<close>



lemma adjustment_sql_reallocated: "adjustment_sql db sh = kept db sh @ reallocated db sh"
  by (simp add: adjustment_sql_def reallocated_def)

subsection \<open>The claims\<close>






subsection \<open>Whole quantities\<close>

lemma row_number_over_rows:
  assumes "rn \<in> set (row_number_over part desc rows)"
  shows "fst rn \<in> set rows"
proof -
  from assms obtain k where
    "rn \<in> set (zip (sort_key (\<lambda>r. - desc r) (filter (\<lambda>r. part r = k) rows))
                    [1 ..< Suc (length (filter (\<lambda>r. part r = k) rows))])"
    unfolding row_number_over_def group_by_def by (auto simp del: upt_Suc)
  then have "fst rn \<in> set (sort_key (\<lambda>r. - desc r) (filter (\<lambda>r. part r = k) rows))"
    by (metis prod.collapse set_zip_leftD)
  then show ?thesis by simp
qed














lemma reallocated_rows:
  assumes "r \<in> set (reallocated db sh)"
  shows "sh_shipment_qty r = 1"
  using assms unfolding reallocated_def insert_alloc_def alloc_def
  by (auto split: if_splits)





subsection \<open>The bound of the central stock\<close>
















subsection \<open>Rows per branch and product\<close>

lemma length_filter_key:
  assumes "distinct (map key xs)"
  shows "length (filter (\<lambda>x. key x = k) xs) \<le> 1"
  using assms
proof (induction xs)
  case Nil
  show ?case by simp
next
  case (Cons x xs)
  show ?case
  proof (cases "key x = k")
    case True
    then have "filter (\<lambda>x. key x = k) xs = []"
      using Cons.prems by (auto simp: filter_empty_conv image_iff)
    then show ?thesis using True by simp
  next
    case False
    then show ?thesis using Cons by simp
  qed
qed

lemma length_concat_if:
  assumes "\<forall>x \<in> set xs. length (H x) \<le> 1"
  shows "length (concat (map (\<lambda>x. if c x then H x else []) xs)) \<le> length (filter c xs)"
  using assms by (induction xs) auto

lemma length_filter_concat:
  assumes "\<forall>x \<in> set xs. \<forall>y \<in> set (F x). Q y \<longrightarrow> key x = k"
    and "\<forall>x \<in> set xs. length (F x) \<le> 1"
  shows "length (filter Q (concat (map F xs))) \<le> length (filter (\<lambda>x. key x = k) xs)"
  using assms
proof (induction xs)
  case Nil
  show ?case by simp
next
  case (Cons x xs)
  have tl: "length (filter Q (concat (map F xs))) \<le> length (filter (\<lambda>x. key x = k) xs)"
    using Cons by simp
  show ?case
  proof (cases "key x = k")
    case True
    have "length (filter Q (F x)) \<le> length (F x)" by simp
    also have "\<dots> \<le> 1" using Cons.prems(2) by simp
    finally show ?thesis using True tl by simp
  next
    case False
    then have "filter Q (F x) = []"
      using Cons.prems(1) by (auto simp: filter_empty_conv)
    then show ?thesis using False tl by simp
  qed
qed

lemma length_filter_zip:
  "length (filter (\<lambda>rn. Q (fst rn)) (zip xs ns)) \<le> length (filter Q xs)"
proof (induction xs arbitrary: ns)
  case Nil
  show ?case by simp
next
  case (Cons x xs)
  show ?case
  proof (cases ns)
    case Nil
    then show ?thesis by simp
  next
    case (Cons n ns')
    then show ?thesis using Cons.IH [of ns'] by auto
  qed
qed

lemma length_filter_sort_key: "length (filter Q (sort_key k xs)) = length (filter Q xs)"
  by (simp add: filter_sort)

lemma length_filter_key2:
  assumes "distinct (map (\<lambda>x. (k1 x, k2 x)) xs)"
  shows "length (filter (\<lambda>x. k1 x = a \<and> k2 x = b) xs) \<le> 1"
  using length_filter_key [OF assms, of "(a, b)"] by simp

lemma needs_match:
  assumes "primary_keys db"
  shows "length (filter (\<lambda>n. bp_branch_id bp = nd_branch_id n \<and> bp_product_id bp = nd_product_id n)
                        (needs db)) \<le> 1"
proof -
  have "filter (\<lambda>n. bp_branch_id bp = nd_branch_id n \<and> bp_product_id bp = nd_product_id n) (needs db) =
          filter (\<lambda>n. nd_branch_id n = bp_branch_id bp \<and> nd_product_id n = bp_product_id bp) (needs db)"
    by (rule filter_cong) auto
  moreover have "length (filter (\<lambda>n. nd_branch_id n = bp_branch_id bp \<and>
                                      nd_product_id n = bp_product_id bp) (needs db)) \<le> 1"
    by (rule length_filter_key2) (use assms in \<open>simp add: primary_keys_def\<close>)
  ultimately show ?thesis by simp
qed

lemma stores_match:
  assumes "primary_keys db"
  shows "length (filter (\<lambda>s. bp_branch_id bp = st_branch_id s) (stores db)) \<le> 1"
proof -
  have "filter (\<lambda>s. bp_branch_id bp = st_branch_id s) (stores db) =
          filter (\<lambda>s. st_branch_id s = bp_branch_id bp) (stores db)"
    by (rule filter_cong) auto
  moreover have "length (filter (\<lambda>s. st_branch_id s = bp_branch_id bp) (stores db)) \<le> 1"
    by (rule length_filter_key) (use assms in \<open>simp add: primary_keys_def\<close>)
  ultimately show ?thesis by simp
qed

lemma branch_products_match:
  assumes "primary_keys db"
  shows "length (filter (\<lambda>bp. bp_product_id bp = p \<and> bp_branch_id bp = b) (branch_products db)) \<le> 1"
  by (rule length_filter_key2) (use assms in \<open>simp add: primary_keys_def\<close>)

lemma available_pair:
  assumes "primary_keys db"
  shows "length (filter (\<lambda>a. av_branch_id a = b \<and> av_product_id a = p) (available db)) \<le> 1"
proof -
  let ?row = "\<lambda>bp n s. \<lparr>av_product_id = bp_product_id bp, av_branch_id = bp_branch_id bp,
                         av_deficit = deficit n bp, av_priority = st_priority s\<rparr>"
  let ?H = "\<lambda>bp n. concat (map (\<lambda>s. if bp_branch_id bp = st_branch_id s
                                      then [?row bp n s] else []) (stores db))"
  let ?F = "\<lambda>bp. concat (map (\<lambda>n. if bp_branch_id bp = nd_branch_id n \<and>
                                       bp_product_id bp = nd_product_id n
                                    then ?H bp n else []) (needs db))"
  have av: "available db = concat (map ?F (branch_products db))"
    by (simp add: available_def)
  have H: "length (?H bp n) \<le> 1" for bp n
  proof -
    have "length (?H bp n) \<le> length (filter (\<lambda>s. bp_branch_id bp = st_branch_id s) (stores db))"
      by (rule length_concat_if) simp
    then show ?thesis using stores_match [OF assms, of bp] by simp
  qed
  have F: "length (?F bp) \<le> 1" for bp
  proof -
    have "length (?F bp) \<le> length (filter (\<lambda>n. bp_branch_id bp = nd_branch_id n \<and>
                                   bp_product_id bp = nd_product_id n) (needs db))"
      by (rule length_concat_if) (use H in blast)
    then show ?thesis using needs_match [OF assms, of bp] by simp
  qed
  have "length (filter (\<lambda>a. av_branch_id a = b \<and> av_product_id a = p)
                       (concat (map ?F (branch_products db))))
          \<le> length (filter (\<lambda>bp. (bp_product_id bp, bp_branch_id bp) = (p, b)) (branch_products db))"
    by (rule length_filter_concat) (use F in \<open>auto split: if_splits\<close>)
  then have "length (filter (\<lambda>a. av_branch_id a = b \<and> av_product_id a = p)
                       (concat (map ?F (branch_products db))))
          \<le> length (filter (\<lambda>bp. bp_product_id bp = p \<and> bp_branch_id bp = b) (branch_products db))"
    by simp
  then show ?thesis
    using branch_products_match [OF assms, of p b] av by simp
qed

lemma avail_pair:
  assumes "primary_keys db"
  shows "length (filter (\<lambda>a. a_branch_id a = b \<and> a_product_id a = p) (avail db)) \<le> 1"
proof -
  let ?row = "\<lambda>bp s. \<lparr>a_branch_id = bp_branch_id bp, a_product_id = bp_product_id bp,
                       a_priority = st_priority s\<rparr>"
  let ?H = "\<lambda>bp s. concat (map (\<lambda>n. if bp_branch_id bp = nd_branch_id n \<and>
                                        bp_product_id bp = nd_product_id n
                                     then (if 0 < deficit n bp then [?row bp s] else [])
                                     else []) (needs db))"
  let ?F = "\<lambda>bp. concat (map (\<lambda>s. if bp_branch_id bp = st_branch_id s
                                    then ?H bp s else []) (stores db))"
  have av: "avail db = concat (map ?F (branch_products db))"
    by (simp add: avail_def)
  have H: "length (?H bp s) \<le> 1" for bp s
  proof -
    have "length (?H bp s) \<le> length (filter (\<lambda>n. bp_branch_id bp = nd_branch_id n \<and>
                                   bp_product_id bp = nd_product_id n) (needs db))"
      by (rule length_concat_if) simp
    then show ?thesis using needs_match [OF assms, of bp] by simp
  qed
  have F: "length (?F bp) \<le> 1" for bp
  proof -
    have "length (?F bp) \<le> length (filter (\<lambda>s. bp_branch_id bp = st_branch_id s) (stores db))"
      by (rule length_concat_if) (use H in blast)
    then show ?thesis using stores_match [OF assms, of bp] by simp
  qed
  have "length (filter (\<lambda>a. a_branch_id a = b \<and> a_product_id a = p)
                       (concat (map ?F (branch_products db))))
          \<le> length (filter (\<lambda>bp. (bp_product_id bp, bp_branch_id bp) = (p, b)) (branch_products db))"
    by (rule length_filter_concat) (use F in \<open>auto split: if_splits\<close>)
  then have "length (filter (\<lambda>a. a_branch_id a = b \<and> a_product_id a = p)
                       (concat (map ?F (branch_products db))))
          \<le> length (filter (\<lambda>bp. bp_product_id bp = p \<and> bp_branch_id bp = b) (branch_products db))"
    by simp
  then show ?thesis
    using branch_products_match [OF assms, of p b] av by simp
qed

lemma length_filter_conj: "length (filter (\<lambda>x. P x \<and> R x) xs) \<le> length (filter P xs)"
  by (induction xs) auto

lemma first_pass_list_pair:
  assumes "primary_keys db"
  shows "length (filter (\<lambda>fp. fp_branch_id fp = b \<and> fp_product_id fp = p) (first_pass_list db)) \<le> 1"
proof -
  have "length (filter (\<lambda>fp. fp_branch_id fp = b \<and> fp_product_id fp = p) (first_pass_list db)) =
          length (filter (\<lambda>a. (av_branch_id a = b \<and> av_product_id a = p) \<and>
                               av_product_id a \<in> central_products db) (available db))"
    unfolding first_pass_list_def
    by (simp add: filter_map o_def first_pass_row_of_def first_alloc_of_def conj_commute)
  also have "\<dots> \<le> length (filter (\<lambda>a. av_branch_id a = b \<and> av_product_id a = p) (available db))"
    by (rule length_filter_conj)
  finally show ?thesis using available_pair [OF assms, of b p] by simp
qed

lemma insert_second_pass_pair:
  "length (pair_rows (insert_second_pass sp) b p) \<le>
     length (filter (\<lambda>r. sp_branch_id r = b) (filter (\<lambda>r. sp_product_id r = p) sp))"
  unfolding pair_rows_def insert_second_pass_def
  by (induction sp) auto

lemma second_pass_pair:
  "length (filter (\<lambda>r. sp_branch_id r = b) (filter (\<lambda>r. sp_product_id r = p) (second_pass p1))) \<le>
     length (filter (\<lambda>r. p1_branch_id r = b) (filter (\<lambda>r. p1_product_id r = p) p1))"
proof -
  let ?P = "filter (\<lambda>r. p1_product_id r = p) p1"
  let ?Z = "zip (sort_key (\<lambda>r. - p1_priority r) ?P) [1 ..< Suc (length ?P)]"
  have "filter (\<lambda>r. sp_branch_id r = b) (map second_pass_of ?Z) =
          map second_pass_of (filter (\<lambda>rn. p1_branch_id (fst rn) = b) ?Z)"
    by (simp add: filter_map o_def second_pass_of_def del: upt_Suc)
  then have "length (filter (\<lambda>r. sp_branch_id r = b)
                       (filter (\<lambda>r. sp_product_id r = p) (second_pass p1))) =
               length (filter (\<lambda>rn. p1_branch_id (fst rn) = b) ?Z)"
    by (simp only: second_pass_partition length_map)
  also have "\<dots> \<le> length (filter (\<lambda>r. p1_branch_id r = b) (sort_key (\<lambda>r. - p1_priority r) ?P))"
    by (rule length_filter_zip)
  finally show ?thesis by (simp only: length_filter_sort_key)
qed

lemma distribution_sql_pair:
  assumes "primary_keys db" and "distribution_sql db = Inr sh"
  shows "length (pair_rows sh b p) \<le> 1"
proof -
  let ?fps = "first_pass_list db"
  let ?p1 = "map (pass1_of db ?fps) ?fps"
  have sh: "sh = insert_second_pass (second_pass ?p1)"
    using assms(2) by (simp add: distribution_sql_value)
  have "length (pair_rows sh b p) \<le>
          length (filter (\<lambda>r. p1_branch_id r = b) (filter (\<lambda>r. p1_product_id r = p) ?p1))"
    unfolding sh using insert_second_pass_pair second_pass_pair by (rule order_trans)
  also have "\<dots> = length (filter (\<lambda>fp. fp_branch_id fp = b \<and> fp_product_id fp = p) ?fps)"
    by (simp add: filter_map o_def pass1_of_def conj_commute)
  finally show ?thesis using first_pass_list_pair [OF assms(1), of b p] by simp
qed

lemma kept_pair: "length (pair_rows (kept db sh) b p) \<le> length (pair_rows sh b p)"
proof -
  have "pair_rows (kept db sh) b p =
          filter (\<lambda>r. sh_branch_id r \<notin> set (to_zero db sh)) (pair_rows sh b p)"
    unfolding pair_rows_def kept_def by (auto intro: filter_cong)
  then show ?thesis by simp
qed

lemma insert_alloc_pair:
  "length (pair_rows (insert_alloc al) b p) \<le>
     length (filter (\<lambda>r. al_branch_id r = b) (filter (\<lambda>r. al_product_id r = p) al))"
  unfolding pair_rows_def insert_alloc_def
  by (induction al) auto

lemma reallocated_pair:
  assumes "primary_keys db"
  shows "length (pair_rows (reallocated db sh) b p) \<le> 1"
proof -
  let ?al = "alloc (leftovers (zeroed db sh)) (avail db)"
  let ?E = "filter (\<lambda>a. a_product_id a = p) (avail db)"
  let ?Z = "zip (sort_key (\<lambda>a. - a_priority a) ?E) [1 ..< Suc (length ?E)]"
  have "length (filter (\<lambda>r. al_branch_id r = b) (filter (\<lambda>r. al_product_id r = p) ?al)) \<le> 1"
  proof (cases "p \<in> z_product_id ` set (zeroed db sh)")
    case False
    then have "filter (\<lambda>l. lo_product_id l = p) (leftovers (zeroed db sh)) = []"
      by (simp add: leftovers_lookup)
    then show ?thesis by (simp add: alloc_no_partition)
  next
    case True
    then obtain lo where row: "filter (\<lambda>l. lo_product_id l = p) (leftovers (zeroed db sh)) = [lo]"
      by (simp add: leftovers_lookup)
    let ?G = "\<lambda>(a, n). \<lparr>al_branch_id = a_branch_id a, al_product_id = lo_product_id lo,
                          al_add_qty = (if int n \<le> lo_leftover lo then 1 else (0::int))\<rparr>"
    have "filter (\<lambda>r. al_branch_id r = b) (map ?G ?Z) =
            map ?G (filter (\<lambda>rn. a_branch_id (fst rn) = b) ?Z)"
      by (simp add: filter_map o_def case_prod_beta del: upt_Suc)
    then have "length (filter (\<lambda>r. al_branch_id r = b) (filter (\<lambda>r. al_product_id r = p) ?al)) =
                 length (filter (\<lambda>rn. a_branch_id (fst rn) = b) ?Z)"
      by (simp only: alloc_partition [OF row] length_map)
    also have "\<dots> \<le> length (filter (\<lambda>a. a_branch_id a = b) (sort_key (\<lambda>a. - a_priority a) ?E))"
      by (rule length_filter_zip)
    also have "\<dots> = length (filter (\<lambda>a. a_branch_id a = b \<and> a_product_id a = p) (avail db))"
      by (simp add: length_filter_sort_key conj_commute)
    finally show ?thesis using avail_pair [OF assms, of b p] by simp
  qed
  then show ?thesis
    unfolding reallocated_def using insert_alloc_pair [of ?al b p] by simp
qed

text \<open>
  Claim C9, amended: the table \<^verbatim>\<open>shipments\<close> has no key, and the leftover reallocation
  inserts its units as rows of their own. For every input that keeps the primary keys of
  the input tables, the final output is the rows that survive the pruning followed by the
  reallocated rows; a pair of branch and product has at most one surviving row and at most
  one reallocated row, which has the quantity 1, so at most two rows in all.
\<close>

theorem rows_per_pair:
  assumes "primary_keys db" and "distribution_sql db = Inr sh" and "distribute db = Inr out"
  shows "out = kept db sh @ reallocated db sh \<and>
         length (pair_rows (kept db sh) b p) \<le> 1 \<and>
         length (pair_rows (reallocated db sh) b p) \<le> 1 \<and>
         (r \<in> set (reallocated db sh) \<longrightarrow> sh_shipment_qty r = 1) \<and>
         length (pair_rows out b p) \<le> 2"
proof -
  have out: "out = kept db sh @ reallocated db sh"
    using assms(2,3) by (simp add: distribute_def adjustment_sql_reallocated)
  have k: "length (pair_rows (kept db sh) b p) \<le> 1"
    using kept_pair [of db sh b p] distribution_sql_pair [OF assms(1,2), of b p] by simp
  have a: "length (pair_rows (reallocated db sh) b p) \<le> 1"
    by (rule reallocated_pair [OF assms(1)])
  have "length (pair_rows out b p) \<le> 2"
    using k a by (simp add: out pair_rows_def)
  then show ?thesis using out k a reallocated_rows by blast
qed

theorem rows_per_pair_witness:
  "primary_keys pruned_branch \<and>
   distribution_sql pruned_branch =
     Inr [\<lparr>sh_branch_id = 1, sh_product_id = 1, sh_shipment_qty = 2\<rparr>,
          \<lparr>sh_branch_id = 2, sh_product_id = 1, sh_shipment_qty = 2\<rparr>] \<and>
   distribute pruned_branch =
     Inr [\<lparr>sh_branch_id = 2, sh_product_id = 1, sh_shipment_qty = 2\<rparr>,
          \<lparr>sh_branch_id = 1, sh_product_id = 1, sh_shipment_qty = 1\<rparr>,
          \<lparr>sh_branch_id = 2, sh_product_id = 1, sh_shipment_qty = 1\<rparr>] \<and>
   length (pair_rows [\<lparr>sh_branch_id = 2, sh_product_id = 1, sh_shipment_qty = 2\<rparr>,
                      \<lparr>sh_branch_id = 1, sh_product_id = 1, sh_shipment_qty = 1\<rparr>,
                      \<lparr>sh_branch_id = 2, sh_product_id = 1, sh_shipment_qty = 1\<rparr>] 2 1) \<le> 2"
proof -
  have a: "primary_keys pruned_branch" by code_simp
  have b: "distribution_sql pruned_branch =
     Inr [\<lparr>sh_branch_id = 1, sh_product_id = 1, sh_shipment_qty = 2\<rparr>,
          \<lparr>sh_branch_id = 2, sh_product_id = 1, sh_shipment_qty = 2\<rparr>]" by code_simp
  have c: "distribute pruned_branch =
     Inr [\<lparr>sh_branch_id = 2, sh_product_id = 1, sh_shipment_qty = 2\<rparr>,
          \<lparr>sh_branch_id = 1, sh_product_id = 1, sh_shipment_qty = 1\<rparr>,
          \<lparr>sh_branch_id = 2, sh_product_id = 1, sh_shipment_qty = 1\<rparr>]" by code_simp
  show ?thesis using a b c rows_per_pair [OF a b c, of 2 1] by blast
qed

subsection \<open>Pruning below the minimal shipment\<close>

lemma available_store:
  "a \<in> set (available db) \<Longrightarrow> \<exists>s \<in> set (stores db). st_branch_id s = av_branch_id a"
  by (auto simp: available_def)

lemma distribution_sql_store:
  assumes "distribution_sql db = Inr sh" and "r \<in> set sh"
  shows "\<exists>s \<in> set (stores db). st_branch_id s = sh_branch_id r"
proof -
  let ?fps = "first_pass_list db"
  let ?p1 = "map (pass1_of db ?fps) ?fps"
  have sh: "sh = insert_second_pass (second_pass ?p1)"
    using assms(1) by (simp add: distribution_sql_value)
  from assms(2) obtain x where x: "x \<in> set (second_pass ?p1)" "sh_branch_id r = sp_branch_id x"
    unfolding sh insert_second_pass_def by auto
  from x(1) obtain rn where rn: "rn \<in> set (row_number_over p1_product_id p1_priority ?p1)"
    and xr: "x = second_pass_of rn"
    unfolding second_pass_def second_pass_of_def by (auto simp: case_prod_beta)
  from row_number_over_rows [OF rn] obtain fp where fp: "fp \<in> set ?fps"
    and p1: "fst rn = pass1_of db ?fps fp"
    by auto
  from fp obtain a where a: "a \<in> set (available db)" "fp_branch_id fp = av_branch_id a"
    by (auto simp: first_pass_list_def first_pass_row_of_def first_alloc_of_def)
  have "sh_branch_id r = av_branch_id a"
    using x(2) xr p1 a(2) by (simp add: second_pass_of_def pass1_of_def)
  then show ?thesis using available_store [OF a(1)] by simp
qed

text \<open>
  Claim C3: whatever table \<open>sh\<close> the first statement has written, a branch whose total
  shipment in \<open>sh\<close> is less than its \<^verbatim>\<open>min_shipment\<close> loses all its rows in the pruning
  step (they are deleted, not raised to the threshold); the quantities of the deleted rows
  of a product are its leftover pool, so that the kept quantity and the pool add up to what
  \<open>sh\<close> held for the product; and after the pruning every branch has a total of 0, or has
  the total it had in \<open>sh\<close> and that total is at least its \<^verbatim>\<open>min_shipment\<close>;
  and every branch with a row in the table of the first statement has a row in
  \<^verbatim>\<open>stores\<close>, hence a \<^verbatim>\<open>min_shipment\<close>.
\<close>

theorem threshold_pruning:
  "(s \<in> set (stores db) \<and> branch_shipment sh (st_branch_id s) < st_min_shipment s \<longrightarrow>
      filter (\<lambda>r. sh_branch_id r = st_branch_id s) (kept db sh) = [] \<and>
      filter (\<lambda>r. sh_branch_id r = st_branch_id s) (deleted db sh) =
        filter (\<lambda>r. sh_branch_id r = st_branch_id s) sh) \<and>
   leftover db sh p = product_shipment (deleted db sh) p \<and>
   product_shipment (kept db sh) p + leftover db sh p = product_shipment sh p \<and>
   (branch_shipment (kept db sh) b = 0 \<or>
      branch_shipment (kept db sh) b = branch_shipment sh b \<and>
      (\<forall>s' \<in> set (stores db).
         st_branch_id s' = b \<longrightarrow> st_min_shipment s' \<le> branch_shipment (kept db sh) b)) \<and>
   (distribution_sql db = Inr sh \<and> r \<in> set sh \<longrightarrow>
      (\<exists>s' \<in> set (stores db). st_branch_id s' = sh_branch_id r))"
proof -
  have "branch_shipment (kept db sh) b = branch_shipment sh b"
    if "branch_shipment (kept db sh) b \<noteq> 0"
    using that by (auto simp: branch_shipment_def kept_branch_rows split: if_splits)
  moreover have "product_shipment (kept db sh) p + leftover db sh p = product_shipment sh p"
    unfolding leftover_eq product_shipment_def by (rule kept_deleted_sum)
  ultimately show ?thesis
    using pruned_branch_rows [of s db sh] leftover_eq [of db sh p] kept_threshold [of db sh b]
      distribution_sql_store [of db sh r]
    by blast
qed

theorem threshold_pruning_witness:
  "\<lparr>st_branch_id = 1, st_priority = 1, st_min_shipment = 100\<rparr> \<in> set (stores pruned_branch) \<and>
   branch_shipment [\<lparr>sh_branch_id = 1, sh_product_id = 1, sh_shipment_qty = 2\<rparr>,
                    \<lparr>sh_branch_id = 2, sh_product_id = 1, sh_shipment_qty = 2\<rparr>] 1 < 100 \<and>
   distribution_sql pruned_branch =
     Inr [\<lparr>sh_branch_id = 1, sh_product_id = 1, sh_shipment_qty = 2\<rparr>,
          \<lparr>sh_branch_id = 2, sh_product_id = 1, sh_shipment_qty = 2\<rparr>] \<and>
   filter (\<lambda>r. sh_branch_id r = 1)
          (kept pruned_branch [\<lparr>sh_branch_id = 1, sh_product_id = 1, sh_shipment_qty = 2\<rparr>,
                               \<lparr>sh_branch_id = 2, sh_product_id = 1, sh_shipment_qty = 2\<rparr>]) = [] \<and>
   leftover pruned_branch [\<lparr>sh_branch_id = 1, sh_product_id = 1, sh_shipment_qty = 2\<rparr>,
                           \<lparr>sh_branch_id = 2, sh_product_id = 1, sh_shipment_qty = 2\<rparr>] 1 = 2"
proof -
  let ?s = "\<lparr>st_branch_id = 1, st_priority = 1, st_min_shipment = 100\<rparr>"
  let ?sh = "[\<lparr>sh_branch_id = 1, sh_product_id = 1, sh_shipment_qty = 2\<rparr>,
              \<lparr>sh_branch_id = 2, sh_product_id = 1, sh_shipment_qty = 2\<rparr>]"
  have a: "?s \<in> set (stores pruned_branch)" by code_simp
  have b: "branch_shipment ?sh (st_branch_id ?s) < st_min_shipment ?s" by code_simp
  have c: "distribution_sql pruned_branch = Inr ?sh" by code_simp
  have d: "product_shipment (deleted pruned_branch ?sh) 1 = 2" by code_simp
  have e: "st_branch_id ?s = 1" by simp
  from threshold_pruning [of ?s pruned_branch ?sh 1 1] a b
  have "filter (\<lambda>r. sh_branch_id r = st_branch_id ?s) (kept pruned_branch ?sh) = []"
    and "leftover pruned_branch ?sh 1 = product_shipment (deleted pruned_branch ?sh) 1"
    by blast+
  then show ?thesis using a b c d unfolding e by simp
qed

end
